theory Spec2Isabelle
  imports Complex_Main "HOL-Library.Word"
begin

unbundle bit_operations_syntax

section \<open>Values of the platform\<close>

text \<open>
  The audio helpers of \<^verbatim>\<open>src/App.tsx\<close> (\<^verbatim>\<open>encode\<close>, \<^verbatim>\<open>decode\<close>,
  \<^verbatim>\<open>decodeAudioData\<close>, \<^verbatim>\<open>createBlob\<close>) and the \<^verbatim>\<open>AIConversation\<close> component are
  embedded below. The values they handle:
  \<^item> a \<^verbatim>\<open>Uint8Array\<close> is a list of \<open>8 word\<close>, an \<^verbatim>\<open>Int16Array\<close> a list of \<open>16 word\<close>
    (read as two's complement by \<open>sint\<close>);
  \<^item> a JavaScript string is the list of its UTF-16 code units, \<open>16 word list\<close>;
  \<^item> a JavaScript number that holds an audio sample is a \<open>number\<close>: a finite value, NaN or
    an infinity. A finite 32-bit float is a dyadic rational, its product with 32768 is
    exact in double precision, and a 16-bit integer divided by 32768 is again a 32-bit
    float, so on finite samples the arithmetic of the helpers is the arithmetic of the
    reals and no rounding of the float formats takes part;
  \<^item> an exception is a value of \<open>jserror\<close> on the left of a sum.
\<close>

type_synonym byte = "8 word"
type_synonym int16 = "16 word"
type_synonym jsstring = "16 word list"

datatype number = Finite real | NaN | PosInfinity | NegInfinity

datatype jserror = InvalidCharacterError | RangeError | NotSupportedError

section \<open>The base64 functions of the platform: btoa and atob\<close>

text \<open>
  \<^verbatim>\<open>btoa\<close> and \<^verbatim>\<open>atob\<close> are functions of the host, not of the repository. They are
  modelled after the HTML standard: \<^verbatim>\<open>btoa\<close> raises InvalidCharacterError on a code unit
  above 255 and otherwise gives the base64 encoding (RFC 4648, with padding) of the code
  units read as bytes; \<^verbatim>\<open>atob\<close> is the forgiving base64 decoding: ASCII whitespace is
  removed, one or two trailing \<^verbatim>\<open>=\<close> are removed when the length is a multiple of four,
  a length of one modulo four or a character outside the alphabet raises
  InvalidCharacterError, and every group of four characters gives three bytes, a final
  group of three gives two and a final group of two gives one.
\<close>

definition b64char :: "nat \<Rightarrow> nat" where
  \<comment> \<open>the code unit of the base64 digit with value \<open>v\<close>: A-Z, a-z, 0-9, +, /\<close>
  "b64char v =
     (if v < 26 then 65 + v
      else if v < 52 then 97 + (v - 26)
      else if v < 62 then 48 + (v - 52)
      else if v = 62 then 43
      else 47)"

definition b64val :: "nat \<Rightarrow> nat option" where
  \<comment> \<open>the value of a base64 digit, \<open>None\<close> for a code unit outside the alphabet\<close>
  "b64val c =
     (if 65 \<le> c \<and> c \<le> 90 then Some (c - 65)
      else if 97 \<le> c \<and> c \<le> 122 then Some (c - 97 + 26)
      else if 48 \<le> c \<and> c \<le> 57 then Some (c - 48 + 52)
      else if c = 43 then Some 62
      else if c = 47 then Some 63
      else None)"

fun base64_encode :: "nat list \<Rightarrow> nat list" where
  "base64_encode (a # b # c # rest) =
     [b64char (a div 4), b64char ((a mod 4) * 16 + b div 16),
      b64char ((b mod 16) * 4 + c div 64), b64char (c mod 64)] @ base64_encode rest"
| "base64_encode [a, b] =
     [b64char (a div 4), b64char ((a mod 4) * 16 + b div 16), b64char ((b mod 16) * 4), 61]"
| "base64_encode [a] = [b64char (a div 4), b64char ((a mod 4) * 16), 61, 61]"
| "base64_encode [] = []"

text \<open>The digits of the encoding before padding, for the proofs below.\<close>

fun sextets_of_bytes :: "nat list \<Rightarrow> nat list" where
  "sextets_of_bytes (a # b # c # rest) =
     [a div 4, (a mod 4) * 16 + b div 16, (b mod 16) * 4 + c div 64, c mod 64]
       @ sextets_of_bytes rest"
| "sextets_of_bytes [a, b] = [a div 4, (a mod 4) * 16 + b div 16, (b mod 16) * 4]"
| "sextets_of_bytes [a] = [a div 4, (a mod 4) * 16]"
| "sextets_of_bytes [] = []"

definition btoa :: "jsstring \<Rightarrow> jserror + jsstring" where
  "btoa s =
     (if list_ex (\<lambda>c. 255 < unat c) s then Inl InvalidCharacterError
      else Inr (map of_nat (base64_encode (map unat s))))"

definition ascii_whitespace :: "nat \<Rightarrow> bool" where
  "ascii_whitespace c = (c = 9 \<or> c = 10 \<or> c = 12 \<or> c = 13 \<or> c = 32)"

definition strip_padding :: "nat list \<Rightarrow> nat list" where
  "strip_padding cs =
     (if length cs mod 4 = 0 \<and> cs \<noteq> [] \<and> last cs = 61
      then (if butlast cs \<noteq> [] \<and> last (butlast cs) = 61 then butlast (butlast cs)
            else butlast cs)
      else cs)"

fun those_vals :: "nat list \<Rightarrow> nat list option" where
  "those_vals [] = Some []"
| "those_vals (c # cs) =
     (case b64val c of None \<Rightarrow> None
      | Some v \<Rightarrow> (case those_vals cs of None \<Rightarrow> None | Some vs \<Rightarrow> Some (v # vs)))"

fun sextets_to_bytes :: "nat list \<Rightarrow> nat list" where
  "sextets_to_bytes (a # b # c # d # rest) =
     [a * 4 + b div 16, (b mod 16) * 16 + c div 4, (c mod 4) * 64 + d] @ sextets_to_bytes rest"
| "sextets_to_bytes [a, b, c] = [a * 4 + b div 16, (b mod 16) * 16 + c div 4]"
| "sextets_to_bytes [a, b] = [a * 4 + b div 16]"
| "sextets_to_bytes [a] = []"
| "sextets_to_bytes [] = []"

definition forgiving_base64_decode :: "nat list \<Rightarrow> nat list option" where
  "forgiving_base64_decode cs =
     (let ds = strip_padding (filter (\<lambda>c. \<not> ascii_whitespace c) cs)
      in if length ds mod 4 = 1 then None
         else (case those_vals ds of None \<Rightarrow> None
               | Some vs \<Rightarrow> Some (sextets_to_bytes vs)))"

definition atob :: "jsstring \<Rightarrow> jserror + jsstring" where
  "atob s =
     (case forgiving_base64_decode (map unat s) of
        None \<Rightarrow> Inl InvalidCharacterError
      | Some bs \<Rightarrow> Inr (map of_nat bs))"

section \<open>encode and decode\<close>

text \<open>
  \<^verbatim>\<open>encode\<close> appends \<^verbatim>\<open>String.fromCharCode(bytes[i])\<close> for every byte and passes the
  binary string to \<^verbatim>\<open>btoa\<close>. \<^verbatim>\<open>decode\<close> calls \<^verbatim>\<open>atob\<close> and stores
  \<^verbatim>\<open>charCodeAt(i)\<close> of every code unit in a fresh \<^verbatim>\<open>Uint8Array\<close>, which keeps the low
  eight bits.
\<close>

definition encode :: "byte list \<Rightarrow> jserror + jsstring" where
  "encode bytes = btoa (map ucast bytes)"

definition decode :: "jsstring \<Rightarrow> jserror + byte list" where
  "decode base64 =
     (case atob base64 of
        Inl e \<Rightarrow> Inl e
      | Inr binaryString \<Rightarrow> Inr (map ucast binaryString))"

section \<open>Typed arrays over one buffer\<close>

text \<open>
  Every typed array of the helpers owns its buffer, so a buffer is the list of the
  bytes of its array.
  \<^verbatim>\<open>new Int16Array(data.buffer)\<close> views the bytes as 16-bit integers, low byte first
  (typed arrays use the byte order of the host, little-endian on every host of a
  browser), and raises RangeError when the byte length is odd.
  \<^verbatim>\<open>new Uint8Array(int16.buffer)\<close> is the opposite view. Storing a number in an
  \<^verbatim>\<open>Int16Array\<close> converts it with ToInt16: NaN and the infinities give 0, a finite
  value is truncated towards zero and reduced modulo \<open>2 ^ 16\<close>.
\<close>

fun int16_view :: "byte list \<Rightarrow> int16 list" where
  "int16_view (lo # hi # rest) = (ucast lo OR push_bit 8 (ucast hi)) # int16_view rest"
| "int16_view [b] = []"
| "int16_view [] = []"

definition new_Int16Array :: "byte list \<Rightarrow> jserror + int16 list" where
  "new_Int16Array buffer =
     (if odd (length buffer) then Inl RangeError else Inr (int16_view buffer))"

fun new_Uint8Array :: "int16 list \<Rightarrow> byte list" where
  "new_Uint8Array [] = []"
| "new_Uint8Array (w # ws) = ucast w # ucast (drop_bit 8 w) # new_Uint8Array ws"

definition truncate_real :: "real \<Rightarrow> int" where
  "truncate_real x = (if 0 \<le> x then \<lfloor>x\<rfloor> else \<lceil>x\<rceil>)"

fun ToInt16 :: "number \<Rightarrow> int16" where
  "ToInt16 (Finite x) = word_of_int (truncate_real x)"
| "ToInt16 _ = 0"

fun times_32768 :: "number \<Rightarrow> number" where
  "times_32768 (Finite x) = Finite (x * 32768)"
| "times_32768 n = n"

section \<open>createBlob\<close>

record blob =
  data :: jsstring
  mimeType :: string

definition createBlob :: "number list \<Rightarrow> jserror + blob" where
  "createBlob samples =
     (let int16 = map (\<lambda>s. ToInt16 (times_32768 s)) samples
      in case encode (new_Uint8Array int16) of
           Inl e \<Rightarrow> Inl e
         | Inr text \<Rightarrow> Inr \<lparr>data = text, mimeType = ''audio/pcm;rate=16000''\<rparr>)"

section \<open>decodeAudioData\<close>

text \<open>
  An \<^verbatim>\<open>AudioContext\<close> is known by an identifier and by the limits of its
  implementation. \<^verbatim>\<open>createBuffer(numberOfChannels, length, sampleRate)\<close> takes its
  first two arguments as unsigned integers, so the quotient \<^verbatim>\<open>frameCount\<close> loses its
  fraction there; it raises NotSupportedError when an argument is zero or outside the
  range the implementation supports, and otherwise gives a buffer of zeros.
  Lengths are taken to be below \<open>2 ^ 32\<close>, where the conversion to an unsigned
  integer is the integer part. With a channel count of 0 the quotient is NaN or
  Infinity and \<^verbatim>\<open>createBuffer\<close> raises for the channel count.
  \<^verbatim>\<open>duration\<close> is the length divided by the sample rate.
  The loop of \<^verbatim>\<open>decodeAudioData\<close> compares \<^verbatim>\<open>i\<close> with the quotient itself, not with
  the length of the buffer. A read beyond the end of the \<^verbatim>\<open>Int16Array\<close> is
  \<^verbatim>\<open>undefined\<close>, and divided by 32768.0 it is NaN; a write beyond the end of the
  channel's \<^verbatim>\<open>Float32Array\<close> does nothing, which is what list update does.
\<close>

record audioContext =
  ctxId :: nat
  maxChannels :: nat
  minSampleRate :: real
  maxSampleRate :: real

record audioBuffer =
  sampleRate :: real
  channels :: "number list list"

definition frames :: "audioBuffer \<Rightarrow> nat" where
  "frames b = (case channels b of [] \<Rightarrow> 0 | c # _ \<Rightarrow> length c)"


definition createBuffer :: "audioContext \<Rightarrow> nat \<Rightarrow> nat \<Rightarrow> real \<Rightarrow> jserror + audioBuffer" where
  "createBuffer ctx numberOfChannels len rate =
     (if numberOfChannels = 0 \<or> maxChannels ctx < numberOfChannels \<or> len = 0
         \<or> rate < minSampleRate ctx \<or> maxSampleRate ctx < rate
      then Inl NotSupportedError
      else Inr \<lparr>sampleRate = rate,
                channels = replicate numberOfChannels (replicate len (Finite 0))\<rparr>)"

definition sample_at :: "int16 list \<Rightarrow> nat \<Rightarrow> number" where
  "sample_at dataInt16 k =
     (if k < length dataInt16 then Finite (real_of_int (sint (dataInt16 ! k)) / 32768)
      else NaN)"

function fill_channel ::
  "int16 list \<Rightarrow> nat \<Rightarrow> nat \<Rightarrow> real \<Rightarrow> nat \<Rightarrow> number list \<Rightarrow> number list" where
  "fill_channel dataInt16 numChannels channel frameCount i channelData =
     (if real i < frameCount
      then fill_channel dataInt16 numChannels channel frameCount (Suc i)
             (channelData[i := sample_at dataInt16 (i * numChannels + channel)])
      else channelData)"
  by pat_completeness auto
termination
proof (relation "measure (\<lambda>(d, n, c, fc, i, cd). nat \<lceil>fc\<rceil> - i)")
  show "wf (measure (\<lambda>(d, n, c, fc, i, cd). nat \<lceil>fc :: real\<rceil> - i))"
    by simp
next
  fix dataInt16 :: "int16 list" and numChannels channel i :: nat
    and frameCount :: real and channelData :: "number list"
  assume "real i < frameCount"
  then have "int i < \<lceil>frameCount\<rceil>"
    by linarith
  then have "i < nat \<lceil>frameCount\<rceil>"
    by linarith
  then show "((dataInt16, numChannels, channel, frameCount, Suc i,
               channelData[i := sample_at dataInt16 (i * numChannels + channel)]),
              (dataInt16, numChannels, channel, frameCount, i, channelData))
             \<in> measure (\<lambda>(d, n, c, fc, i, cd). nat \<lceil>fc\<rceil> - i)"
    by simp
qed

declare fill_channel.simps [simp del]

definition decodeAudioData ::
  "byte list \<Rightarrow> audioContext \<Rightarrow> real \<Rightarrow> nat \<Rightarrow> jserror + audioBuffer" where
  "decodeAudioData bytes ctx rate numChannels =
     (case new_Int16Array bytes of
        Inl e \<Rightarrow> Inl e
      | Inr dataInt16 \<Rightarrow>
          if numChannels = 0 then Inl NotSupportedError
          else
            (let frameCount = real (length dataInt16) / real numChannels
             in case createBuffer ctx numChannels (nat \<lfloor>frameCount\<rfloor>) rate of
                  Inl e \<Rightarrow> Inl e
                | Inr buffer \<Rightarrow>
                    Inr (buffer\<lparr>channels :=
                      map (\<lambda>channel. fill_channel dataInt16 numChannels channel frameCount 0
                                       (channels buffer ! channel))
                          [0..<numChannels]\<rparr>)))"

text \<open>
  The round trip of the codec: the samples are encoded by \<^verbatim>\<open>createBlob\<close>, the text of
  the blob is decoded by \<^verbatim>\<open>decode\<close>, and the bytes are decoded by
  \<^verbatim>\<open>decodeAudioData\<close> with one channel.
\<close>

definition roundTrip :: "audioContext \<Rightarrow> real \<Rightarrow> number list \<Rightarrow> jserror + audioBuffer" where
  "roundTrip ctx rate samples =
     (case createBlob samples of
        Inl e \<Rightarrow> Inl e
      | Inr pcmBlob \<Rightarrow>
          (case decode (data pcmBlob) of
             Inl e \<Rightarrow> Inl e
           | Inr bytes \<Rightarrow> decodeAudioData bytes ctx rate 1))"

section \<open>The AIConversation component\<close>

text \<open>
  The component keeps React state (\<^verbatim>\<open>micState\<close>, \<^verbatim>\<open>status\<close>, \<^verbatim>\<open>error\<close>,
  \<^verbatim>\<open>liveSpeaker\<close>) and refs (\<^verbatim>\<open>sessionRef\<close>, \<^verbatim>\<open>streamRef\<close>, the two audio contexts,
  \<^verbatim>\<open>sourcesRef\<close>, \<^verbatim>\<open>nextStartTimeRef\<close>, \<^verbatim>\<open>scriptProcessorRef\<close>,
  \<^verbatim>\<open>liveSpeakerTimeoutRef\<close>). The model is one record of them, passed through every
  handler, with the calls made on objects of the platform recorded in order in
  \<open>effects\<close>. The objects themselves (session, media stream, nodes, timers) are
  identifiers. The texts shown to the user are constructors of \<open>statusText\<close> and
  \<open>errorText\<close>; console output and the transcript, which no handler of the
  component writes, are left out.
\<close>

datatype micState = MicIdle | MicRequesting | MicReady | MicError

datatype speaker = User | Ai

datatype statusText =
    StatusWaiting | StatusConnecting | StatusConnected | StatusDisconnected | StatusStopped

datatype errorText =
    NoApiKey | NoLessonContent string | ConnectionFailed | ExceptionMessage string
  | CannotStartRecording

datatype action =
    SessionClose nat
  | TracksStop nat
  | ProcessorDisconnect nat
  | ContextClose nat
  | SpeechCancel
  | GetUserMedia
  | LiveConnect string string
  | CaptureConnect nat nat
  | SendRealtimeInput nat blob
  | SourceStart nat audioBuffer real
  | ClearTimeout nat
  | SetTimeout nat nat

record conversation =
  micState :: micState
  status :: statusText
  error :: "errorText option"
  liveSpeaker :: "speaker option"
  sessionRef :: "nat option"
  streamRef :: "nat option"
  inputAudioContextRef :: "audioContext option"
  outputAudioContextRef :: "audioContext option"
  sourcesRef :: "nat set"
  nextStartTimeRef :: real
  scriptProcessorRef :: "nat option"
  liveSpeakerTimeoutRef :: "nat option"
  effects :: "action list"

definition initial :: conversation where
  "initial =
     \<lparr>micState = MicIdle, status = StatusWaiting, error = None, liveSpeaker = None,
      sessionRef = None, streamRef = None, inputAudioContextRef = None,
      outputAudioContextRef = None, sourcesRef = {}, nextStartTimeRef = 0,
      scriptProcessorRef = None, liveSpeakerTimeoutRef = None, effects = []\<rparr>"

definition call :: "action \<Rightarrow> conversation \<Rightarrow> conversation" where
  "call a s = s\<lparr>effects := effects s @ [a]\<rparr>"

subsection \<open>cleanup and stopSession\<close>

text \<open>
  \<^verbatim>\<open>cleanup\<close> tests \<^verbatim>\<open>sessionRef\<close>, \<^verbatim>\<open>streamRef\<close> and \<^verbatim>\<open>scriptProcessorRef\<close> with
  \<^verbatim>\<open>if\<close>, closes the two contexts through \<^verbatim>\<open>?.\<close>, sets all five refs to null, and
  calls \<^verbatim>\<open>speechSynthesis.cancel()\<close> when the window has speech synthesis
  (\<open>hasSpeech\<close>).
\<close>

definition cleanup :: "bool \<Rightarrow> conversation \<Rightarrow> conversation" where
  "cleanup hasSpeech s0 =
     (let s1 = (case sessionRef s0 of
                  Some session \<Rightarrow> (call (SessionClose session) s0)\<lparr>sessionRef := None\<rparr>
                | None \<Rightarrow> s0);
          s2 = (case streamRef s1 of
                  Some stream \<Rightarrow> (call (TracksStop stream) s1)\<lparr>streamRef := None\<rparr>
                | None \<Rightarrow> s1);
          s3 = (case scriptProcessorRef s2 of
                  Some node \<Rightarrow> (call (ProcessorDisconnect node) s2)\<lparr>scriptProcessorRef := None\<rparr>
                | None \<Rightarrow> s2);
          s4 = (case inputAudioContextRef s3 of
                  Some ctx \<Rightarrow> call (ContextClose (ctxId ctx)) s3
                | None \<Rightarrow> s3)\<lparr>inputAudioContextRef := None\<rparr>;
          s5 = (case outputAudioContextRef s4 of
                  Some ctx \<Rightarrow> call (ContextClose (ctxId ctx)) s4
                | None \<Rightarrow> s4)\<lparr>outputAudioContextRef := None\<rparr>
      in if hasSpeech then call SpeechCancel s5 else s5)"

definition stopSession :: "bool \<Rightarrow> conversation \<Rightarrow> conversation" where
  "stopSession hasSpeech s = (cleanup hasSpeech s)\<lparr>status := StatusStopped, micState := MicIdle\<rparr>"

definition release :: "action \<Rightarrow> bool" where
  \<comment> \<open>the calls that release a resource held in a ref\<close>
  "release a =
     (case a of SessionClose _ \<Rightarrow> True | TracksStop _ \<Rightarrow> True | ProcessorDisconnect _ \<Rightarrow> True
      | ContextClose _ \<Rightarrow> True | _ \<Rightarrow> False)"

subsection \<open>startSession\<close>

text \<open>
  \<^verbatim>\<open>startSession\<close> is an async function with two awaits. Each stretch between them
  is one function of the model: \<open>startSession\<close> runs to the first return or to the
  call of \<^verbatim>\<open>getUserMedia\<close>; \<open>startSession_granted\<close> runs from the granted stream to
  the await of the session promise; \<open>startSession_resolved\<close> is the assignment after
  it; \<open>startSession_catch\<close> is the catch block, entered when an awaited promise
  rejects. The component's \<^verbatim>\<open>apiKey\<close> prop is a string, \<^verbatim>\<open>process.env.API_KEY\<close> a
  string or undefined; \<^verbatim>\<open>a || b\<close> is \<open>a\<close> unless \<open>a\<close> is the empty string.
  \<^verbatim>\<open>AI_CONVERSATION_PROMPTS\<close> is imported from a file that is not part of the
  sources at hand, so the table is a parameter.
\<close>

definition effectiveApiKey :: "string \<Rightarrow> string option \<Rightarrow> string option" where
  "effectiveApiKey apiKey envKey = (if apiKey \<noteq> [] then Some apiKey else envKey)"

definition falsy :: "string option \<Rightarrow> bool" where
  "falsy v = (case v of None \<Rightarrow> True | Some t \<Rightarrow> t = [])"

datatype startStep = Returned | AwaitingMicrophone string "string list"

definition startSession ::
  "string \<Rightarrow> string option \<Rightarrow> (string \<rightharpoonup> string list) \<Rightarrow> string \<Rightarrow> conversation
     \<Rightarrow> conversation \<times> startStep" where
  "startSession apiKey envKey AI_CONVERSATION_PROMPTS lessonName s0 =
     (let s1 = s0\<lparr>micState := MicRequesting, error := None\<rparr>;
          key = effectiveApiKey apiKey envKey
      in if falsy key
         then (s1\<lparr>error := Some NoApiKey, micState := MicError\<rparr>, Returned)
         else (case AI_CONVERSATION_PROMPTS lessonName of
                 None \<Rightarrow>
                   (s1\<lparr>error := Some (NoLessonContent lessonName), micState := MicError\<rparr>,
                    Returned)
               | Some prompts \<Rightarrow> (call GetUserMedia s1, AwaitingMicrophone (the key) prompts)))"

definition startSession_granted ::
  "nat \<Rightarrow> audioContext \<Rightarrow> audioContext \<Rightarrow> string \<Rightarrow> string \<Rightarrow> conversation \<Rightarrow> conversation" where
  "startSession_granted localStream inputAudioContext outputAudioContext key lessonName s =
     call (LiveConnect key lessonName)
       (s\<lparr>streamRef := Some localStream, status := StatusConnecting, micState := MicReady,
          inputAudioContextRef := Some inputAudioContext,
          outputAudioContextRef := Some outputAudioContext\<rparr>)"

definition startSession_resolved :: "nat \<Rightarrow> conversation \<Rightarrow> conversation" where
  "startSession_resolved session s = s\<lparr>sessionRef := Some session\<rparr>"

definition startSession_catch :: "string \<Rightarrow> conversation \<Rightarrow> conversation" where
  "startSession_catch message s =
     s\<lparr>error := Some (if message \<noteq> [] then ExceptionMessage message else CannotStartRecording),
       micState := MicError\<rparr>"

subsection \<open>The callbacks of the live session\<close>

text \<open>
  \<^verbatim>\<open>onopen\<close> creates the media stream source and the script processor (\<open>source\<close> and
  \<open>scriptProcessor\<close> name the new nodes), stores the processor and connects the
  graph. \<^verbatim>\<open>onaudioprocess\<close> makes the blob of channel 0 and registers the send with
  \<^verbatim>\<open>sessionPromise.then\<close>. The promise is a local of \<^verbatim>\<open>startSession\<close> that the
  callback closes over, so it is a value of its own, passed to the callback and
  returned by it: while it is pending the send is queued on it, once it is fulfilled
  the send is made on its session, and on a rejected promise the send is never made.
  \<open>fulfil\<close> is the resolution of a pending promise: its reactions run in the order
  they were registered, first the assignment after the await of \<^verbatim>\<open>startSession\<close>
  (registered when the connect call returned), then the queued sends.
  \<^verbatim>\<open>onclose\<close> and \<^verbatim>\<open>onerror\<close> set React state only.
\<close>

datatype promise = Pending "blob list" | Fulfilled nat | Rejected

definition onopen :: "nat \<Rightarrow> nat \<Rightarrow> conversation \<Rightarrow> conversation" where
  "onopen source scriptProcessor s =
     call (CaptureConnect source scriptProcessor)
       (s\<lparr>status := StatusConnected, scriptProcessorRef := Some scriptProcessor\<rparr>)"

definition onaudioprocess ::
  "promise \<Rightarrow> number list \<Rightarrow> conversation \<Rightarrow> promise \<times> conversation" where
  "onaudioprocess sessionPromise inputData s =
     (case createBlob inputData of
        Inl e \<Rightarrow> (sessionPromise, s)
      | Inr pcmBlob \<Rightarrow>
          (case sessionPromise of
             Pending queued \<Rightarrow> (Pending (queued @ [pcmBlob]), s)
           | Fulfilled session \<Rightarrow>
               (sessionPromise, call (SendRealtimeInput session pcmBlob) s)
           | Rejected \<Rightarrow> (sessionPromise, s)))"

definition fulfil :: "nat \<Rightarrow> promise \<Rightarrow> conversation \<Rightarrow> promise \<times> conversation" where
  "fulfil session sessionPromise s =
     (case sessionPromise of
        Pending queued \<Rightarrow>
          (Fulfilled session,
           foldl (\<lambda>t pcmBlob. call (SendRealtimeInput session pcmBlob) t)
             (startSession_resolved session s) queued)
      | _ \<Rightarrow> (sessionPromise, s))"

definition onclose :: "conversation \<Rightarrow> conversation" where
  "onclose s = s\<lparr>status := StatusDisconnected, micState := MicIdle\<rparr>"

definition onerror :: "conversation \<Rightarrow> conversation" where
  "onerror s = s\<lparr>error := Some ConnectionFailed, micState := MicError\<rparr>"





definition onended :: "nat \<Rightarrow> conversation \<Rightarrow> conversation" where
  "onended source s = s\<lparr>sourcesRef := sourcesRef s - {source}\<rparr>"

subsection \<open>Reading the trace\<close>


section \<open>Example values\<close>

definition ctxIn :: audioContext where
  "ctxIn = \<lparr>ctxId = 2, maxChannels = 32, minSampleRate = 8000, maxSampleRate = 96000\<rparr>"

definition ctxOut :: audioContext where
  "ctxOut = \<lparr>ctxId = 3, maxChannels = 32, minSampleRate = 8000, maxSampleRate = 96000\<rparr>"

definition connecting :: conversation where
  \<comment> \<open>the microphone is granted and the session promise is pending\<close>
  "connecting = startSession_granted 1 ctxIn ctxOut ''key'' ''Bai 1'' initial"

definition connected :: conversation where
  "connected = onopen 5 6 (startSession_resolved 4 connecting)"

definition ctxIn2 :: audioContext where
  "ctxIn2 = \<lparr>ctxId = 8, maxChannels = 32, minSampleRate = 8000, maxSampleRate = 96000\<rparr>"

definition ctxOut2 :: audioContext where
  "ctxOut2 = \<lparr>ctxId = 9, maxChannels = 32, minSampleRate = 8000, maxSampleRate = 96000\<rparr>"

definition restarted :: conversation where
  \<comment> \<open>the connection of \<open>connected\<close> fails, and Start is pressed in the error state\<close>
  "restarted =
     startSession_granted 7 ctxIn2 ctxOut2 ''key'' ''Bai 1''
       (fst (startSession ''key'' None [''Bai 1'' \<mapsto> [''q'']] ''Bai 1'' (onerror connected)))"

definition pcmOne :: blob where
  \<comment> \<open>the blob of the one sample 1.0\<close>
  "pcmOne = \<lparr>data = [65, 73, 65, 61], mimeType = ''audio/pcm;rate=16000''\<rparr>"






section \<open>The base64 round trip\<close>

lemma b64char_not_pad: "b64char v \<noteq> 61"
  unfolding b64char_def by (simp; arith)

lemma b64char_not_space: "\<not> ascii_whitespace (b64char v)"
  unfolding b64char_def ascii_whitespace_def by (simp; arith)

lemma b64val_b64char: "v < 64 \<Longrightarrow> b64val (b64char v) = Some v"
  unfolding b64char_def b64val_def by (simp; arith)

lemma length_base64_encode: "length (base64_encode ns) mod 4 = 0"
  by (induction ns rule: base64_encode.induct) simp_all

lemma base64_encode_empty: "base64_encode ns = [] \<longleftrightarrow> ns = []"
  by (cases ns rule: base64_encode.cases) simp_all

lemma base64_encode_no_space:
  "filter (\<lambda>c. \<not> ascii_whitespace c) (base64_encode ns) = base64_encode ns"
  by (induction ns rule: base64_encode.induct)
    (simp_all add: b64char_not_space, simp_all add: ascii_whitespace_def)

lemma strip_padding_append:
  assumes "length xs = 4" "length es mod 4 = 0" "es \<noteq> []"
  shows "strip_padding (xs @ es) = xs @ strip_padding es"
proof -
  from assms(2,3) have "4 \<le> length es"
    by (cases "length es") (simp, arith)
  then have "butlast es \<noteq> []"
    by (cases es) auto
  with assms show ?thesis
    by (simp add: strip_padding_def butlast_append)
qed

lemma strip_padding_base64_encode:
  "strip_padding (base64_encode ns) = map b64char (sextets_of_bytes ns)"
proof (induction ns rule: base64_encode.induct)
  case (1 a b c rest)
  show ?case
  proof (cases "rest = []")
    case True
    then show ?thesis
      by (simp add: strip_padding_def b64char_not_pad)
  next
    case False
    then have "base64_encode rest \<noteq> []"
      by (simp add: base64_encode_empty)
    then show ?thesis
      using 1 by (simp add: strip_padding_append [where xs="[_,_,_,_]", simplified] length_base64_encode)
  qed
qed (simp_all add: strip_padding_def b64char_not_pad)

lemma length_sextets: "length (sextets_of_bytes ns) mod 4 \<noteq> Suc 0"
  by (induction ns rule: sextets_of_bytes.induct) simp_all

lemma sextet_arith:
  fixes a b c :: nat
  assumes "b < 256" "c < 256"
  shows "a mod 4 * 16 + b div 16 < 64" "b mod 16 * 4 + c div 64 < 64"
    "a div 4 * 4 + (a mod 4 * 16 + b div 16) div 16 = a"
    "(a mod 4 * 16 + b div 16) mod 16 * 16 + (b mod 16 * 4 + c div 64) div 4 = b"
    "(b mod 16 * 4 + c div 64) mod 4 * 64 + c mod 64 = c"
proof -
  have b: "b div 16 < 16" and c: "c div 64 < 4"
    using assms by simp_all
  have a4: "a mod 4 < 4" and b16: "b mod 16 < 16"
    by simp_all
  from a4 b show "a mod 4 * 16 + b div 16 < 64"
    by linarith
  from b16 c show "b mod 16 * 4 + c div 64 < 64"
    by linarith
  have 1: "(a mod 4 * 16 + b div 16) div 16 = a mod 4"
    using b by simp
  have 2: "(a mod 4 * 16 + b div 16) mod 16 = b div 16"
    using b by simp
  have 3: "(b mod 16 * 4 + c div 64) div 4 = b mod 16"
    using c by simp
  have 4: "(b mod 16 * 4 + c div 64) mod 4 = c div 64"
    using c by simp
  show "a div 4 * 4 + (a mod 4 * 16 + b div 16) div 16 = a"
    unfolding 1 by simp
  show "(a mod 4 * 16 + b div 16) mod 16 * 16 + (b mod 16 * 4 + c div 64) div 4 = b"
    unfolding 2 3 by simp
  show "(b mod 16 * 4 + c div 64) mod 4 * 64 + c mod 64 = c"
    unfolding 4 by simp
qed

lemma sextets_bound:
  "\<forall>n \<in> set ns. n < 256 \<Longrightarrow> \<forall>v \<in> set (sextets_of_bytes ns). v < 64"
proof (induction ns rule: sextets_of_bytes.induct)
  case (1 a b c rest)
  then have "a < 256" "b < 256" "c < 256"
    by simp_all
  with 1 show ?case
    by (simp add: sextet_arith(1,2) less_mult_imp_div_less)
next
  case (2 a b)
  then have "a < 256" "b < 256"
    by simp_all
  moreover have "b mod 16 * 4 < 64"
    using mod_less_divisor [of 16 b] by linarith
  ultimately show ?case
    by (simp add: sextet_arith(1) less_mult_imp_div_less)
next
  case (3 a)
  then have "a < 256"
    by simp
  moreover have "a mod 4 * 16 < 64"
    using mod_less_divisor [of 4 a] by linarith
  ultimately show ?case
    by (simp add: less_mult_imp_div_less)
qed simp

lemma those_vals_b64char:
  "\<forall>v \<in> set vs. v < 64 \<Longrightarrow> those_vals (map b64char vs) = Some vs"
  by (induction vs) (simp_all add: b64val_b64char)

lemma bytes_of_sextets:
  "\<forall>n \<in> set ns. n < 256 \<Longrightarrow> sextets_to_bytes (sextets_of_bytes ns) = ns"
proof (induction ns rule: sextets_of_bytes.induct)
  case (1 a b c rest)
  then have "b < 256" "c < 256"
    by simp_all
  from sextet_arith(3,4,5) [OF this] 1 show ?case
    by simp
next
  case (2 a b)
  then have b: "b < 256"
    by simp
  have "(b mod 16 * 4) div 4 = b mod 16"
    by simp
  with sextet_arith(3,4) [OF b, of 0 a] show ?case
    by simp
next
  case (3 a)
  have "(a mod 4 * 16) div 16 = a mod 4"
    by simp
  then show ?case
    by simp
qed simp

lemma forgiving_base64_decode_encode:
  assumes "\<forall>n \<in> set ns. n < 256"
  shows "forgiving_base64_decode (base64_encode ns) = Some ns"
  using assms
  by (simp add: forgiving_base64_decode_def base64_encode_no_space strip_padding_base64_encode
      length_sextets those_vals_b64char sextets_bound bytes_of_sextets)


lemma b64char_le: "b64char v \<le> 122"
  unfolding b64char_def by (simp; arith)

lemma base64_encode_ascii: "\<forall>c \<in> set (base64_encode ns). c < 65536"
proof (induction ns rule: base64_encode.induct)
  case (1 a b c rest)
  then show ?case
    using b64char_le [of "a div 4"] b64char_le [of "a mod 4 * 16 + b div 16"]
      b64char_le [of "b mod 16 * 4 + c div 64"] b64char_le [of "c mod 64"]
    by simp
next
  case (2 a b)
  then show ?case
    using b64char_le [of "a div 4"] b64char_le [of "a mod 4 * 16 + b div 16"]
      b64char_le [of "b mod 16 * 4"]
    by simp
next
  case (3 a)
  then show ?case
    using b64char_le [of "a div 4"] b64char_le [of "a mod 4 * 16"]
    by simp
qed simp

lemma unat_code_unit:
  assumes "\<forall>c \<in> set cs. c < 65536"
  shows "map unat (map of_nat cs :: jsstring) = cs"
proof -
  have "unat (of_nat c :: 16 word) = c" if "c \<in> set cs" for c
    using assms that by (simp add: unat_of_nat)
  then show ?thesis
    by (simp add: map_idI)
qed

lemma unat_byte: "unat (b :: byte) < 256"
  using unsigned_less [of b, where 'a = nat] by simp

lemma unat_ucast_byte: "unat (ucast (b :: byte) :: 16 word) = unat b"
  by transfer simp

lemma byte_of_code_unit: "(ucast (ucast (b :: byte) :: 16 word) :: byte) = b"
  by (rule bit_word_eqI) (simp add: bit_simps)

lemma encode_value: "encode bytes = Inr (map of_nat (base64_encode (map unat bytes)))"
proof -
  have "\<not> 255 < unat (ucast b :: 16 word)" for b :: byte
    using unat_byte [of b] by (simp add: unat_ucast_byte)
  then have "\<not> list_ex (\<lambda>c. 255 < unat c) (map ucast bytes :: jsstring)"
    by (simp add: list_ex_iff)
  then show ?thesis
    by (simp add: encode_def btoa_def unat_ucast_byte comp_def)
qed

lemma decode_encoded: "decode (map of_nat (base64_encode (map unat bytes))) = Inr bytes"
proof -
  let ?ns = "map unat bytes"
  have small: "\<forall>n \<in> set ?ns. n < 256"
    by (simp add: unat_byte)
  have "atob (map of_nat (base64_encode ?ns)) = Inr (map of_nat ?ns)"
    by (simp only: atob_def unat_code_unit [OF base64_encode_ascii]
        forgiving_base64_decode_encode [OF small] option.case)
  then show ?thesis
    by (simp add: decode_def comp_def byte_of_code_unit)
qed

lemma encode_example:
  "encode [0, 64, 0, 64] = Inr [65, 69, 65, 65, 81, 65, 61, 61]"
  "encode [] = Inr []"
  by code_simp+

text \<open>
  Claim C5. For every byte sequence, the empty one included, \<^verbatim>\<open>encode\<close> returns a
  text and \<^verbatim>\<open>decode\<close> of that text returns the bytes.
\<close>

theorem decode_encode:
  "\<exists>text. encode bytes = Inr text \<and> decode text = Inr bytes"
  using encode_value [of bytes] decode_encoded [of bytes] by simp

theorem decode_encode_witness:
  "decode [65, 69, 65, 65, 81, 65, 61, 61] = Inr [0, 64, 0, 64] \<and> decode [] = Inr []"
  using decode_encode [of "[0, 64, 0, 64]"] decode_encode [of "[]"]
  by (simp add: encode_example)

section \<open>The PCM codec\<close>

lemma int16_view_bytes: "int16_view (new_Uint8Array ws) = ws"
proof (induction ws)
  case (Cons w ws)
  have "ucast (ucast w :: byte) OR push_bit 8 (ucast (ucast (drop_bit 8 w) :: byte)) = w"
    by (rule bit_word_eqI) (auto simp: bit_simps)
  with Cons show ?case by simp
qed simp

lemma length_new_Uint8Array: "length (new_Uint8Array ws) = 2 * length ws"
  by (induction ws) simp_all

lemma length_int16_view: "length (int16_view bytes) = length bytes div 2"
  by (induction bytes rule: int16_view.induct) simp_all

lemma fill_channel_result:
  "length (fill_channel d n ch fc i cd) = length cd
   \<and> (\<forall>j < length cd. real j < fc \<longrightarrow>
         fill_channel d n ch fc i cd ! j = (if i \<le> j then sample_at d (j * n + ch) else cd ! j))"
proof (induction d n ch fc i cd rule: fill_channel.induct)
  case (1 d n ch fc i cd)
  show ?case
  proof (cases "real i < fc")
    case True
    let ?cd = "cd[i := sample_at d (i * n + ch)]"
    from True have eq: "fill_channel d n ch fc i cd = fill_channel d n ch fc (Suc i) ?cd"
      by (subst fill_channel.simps) simp
    from 1 [OF True] have len: "length (fill_channel d n ch fc (Suc i) ?cd) = length cd"
      and ih: "\<And>j. j < length cd \<Longrightarrow> real j < fc \<Longrightarrow>
         fill_channel d n ch fc (Suc i) ?cd ! j
           = (if Suc i \<le> j then sample_at d (j * n + ch) else ?cd ! j)"
      by simp_all
    show ?thesis
      unfolding eq using len ih by (auto simp: nth_list_update not_less_eq_eq)
  next
    case False
    then have "fill_channel d n ch fc i cd = cd"
      by (subst fill_channel.simps) simp
    with False show ?thesis
      by auto
  qed
qed

lemma whole_frame:
  assumes "j < m div n"
  shows "Suc j * n \<le> (m :: nat)"
proof -
  from assms have "Suc j \<le> m div n"
    by simp
  then have "Suc j * n \<le> m div n * n"
    by (rule mult_le_mono1)
  also have "m div n * n \<le> m"
    by simp
  finally show ?thesis .
qed

lemma frame_count:
  assumes "0 < n"
  shows "nat \<lfloor>real m / real n\<rfloor> = m div n"
    and "j < m div n \<Longrightarrow> real j < real m / real n"
proof -
  show "nat \<lfloor>real m / real n\<rfloor> = m div n"
    by (simp add: floor_divide_of_nat_eq)
  assume "j < m div n"
  then have "Suc j * n \<le> m"
    by (rule whole_frame)
  then have "real (Suc j * n) \<le> real m"
    by (simp only: of_nat_le_iff)
  then have "real j * real n < real m"
    using assms by (simp add: algebra_simps)
  then show "real j < real m / real n"
    using assms by (simp add: pos_less_divide_eq)
qed

lemma frame_index:
  assumes "j < m div n" "ch < n"
  shows "j * n + ch < (m :: nat)"
proof -
  from assms(2) have "j * n + ch < Suc j * n"
    by simp
  also from assms(1) have "Suc j * n \<le> m"
    by (rule whole_frame)
  finally show ?thesis .
qed

lemma decodeAudioData_value:
  assumes "even (length bytes)" "1 \<le> n" "n \<le> length bytes div 2"
    and "n \<le> maxChannels ctx" "minSampleRate ctx \<le> rate" "rate \<le> maxSampleRate ctx"
  shows "\<exists>b. decodeAudioData bytes ctx rate n = Inr b \<and> sampleRate b = rate
           \<and> length (channels b) = n
           \<and> (\<forall>ch < n. length (channels b ! ch) = length bytes div 2 div n
                \<and> (\<forall>i < length bytes div 2 div n.
                      channels b ! ch ! i
                        = Finite (real_of_int (sint (int16_view bytes ! (i * n + ch))) / 32768)))"
proof -
  let ?d = "int16_view bytes"
  let ?m = "length bytes div 2"
  let ?fc = "real (length ?d) / real n"
  let ?zero = "replicate (?m div n) (Finite 0)"
  let ?chs = "map (\<lambda>ch. fill_channel ?d n ch ?fc 0 ?zero) [0..<n]"
  from assms(2) have n: "0 < n"
    by simp
  from assms(2,3) have frames: "0 < ?m div n"
    by (simp add: div_greater_zero_iff)
  have fl: "nat \<lfloor>?fc\<rfloor> = ?m div n"
    by (simp only: frame_count(1) [OF n] length_int16_view)
  have cb: "createBuffer ctx n (?m div n) rate
      = Inr \<lparr>sampleRate = rate, channels = replicate n ?zero\<rparr>"
    using assms n frames by (simp add: createBuffer_def)
  have "map (\<lambda>ch. fill_channel ?d n ch ?fc 0 (replicate n ?zero ! ch)) [0..<n] = ?chs"
    by (rule map_cong) simp_all
  then have val: "decodeAudioData bytes ctx rate n = Inr \<lparr>sampleRate = rate, channels = ?chs\<rparr>"
    using assms(1) n by (simp add: decodeAudioData_def new_Int16Array_def Let_def fl cb)
  have "length (?chs ! ch) = ?m div n
      \<and> (\<forall>i < ?m div n. ?chs ! ch ! i
            = Finite (real_of_int (sint (?d ! (i * n + ch))) / 32768))" if ch: "ch < n" for ch
  proof -
    note fill = fill_channel_result [of ?d n ch ?fc 0 ?zero]
    have "?chs ! ch ! i = Finite (real_of_int (sint (?d ! (i * n + ch))) / 32768)"
      if i: "i < ?m div n" for i
    proof -
      have "real i < ?fc"
        using frame_count(2) [OF n i] by (simp add: length_int16_view)
      with fill i have "fill_channel ?d n ch ?fc 0 ?zero ! i = sample_at ?d (i * n + ch)"
        by simp
      moreover have "i * n + ch < length ?d"
        using frame_index [OF i ch] by (simp add: length_int16_view)
      ultimately show ?thesis
        using ch by (simp add: sample_at_def)
    qed
    with fill ch show ?thesis
      by simp
  qed
  with val show ?thesis
    by simp
qed


text \<open>
  Claim C6, as the source has it. For bytes of even length that hold at least one whole
  frame, and a channel count and sample rate the context supports, \<^verbatim>\<open>decodeAudioData\<close>
  returns one sequence per channel, of length the number of 16-bit integers divided by
  the channel count and rounded down; sample \<open>i\<close> of channel \<open>ch\<close> is integer
  \<open>i * numChannels + ch\<close> divided by 32768, so the integers after the last whole frame
  are dropped.
\<close>

theorem decodeAudioData_frames:
  assumes "even (length bytes)" and "1 \<le> numChannels"
    and "numChannels \<le> length bytes div 2"
    and "numChannels \<le> maxChannels ctx"
    and "minSampleRate ctx \<le> rate" and "rate \<le> maxSampleRate ctx"
  shows "\<exists>b. decodeAudioData bytes ctx rate numChannels = Inr b \<and> sampleRate b = rate
           \<and> length (channels b) = numChannels
           \<and> (\<forall>ch < numChannels.
                 length (channels b ! ch) = length bytes div 2 div numChannels
                 \<and> (\<forall>i < length bytes div 2 div numChannels.
                       channels b ! ch ! i
                         = Finite (real_of_int (sint (int16_view bytes ! (i * numChannels + ch)))
                                   / 32768)))"
  using assms by (rule decodeAudioData_value)

theorem decodeAudioData_frames_witness:
  "\<exists>b. decodeAudioData [0, 64, 0, 32, 0, 16] ctxOut 24000 2 = Inr b
     \<and> length (channels b) = 2 \<and> length (channels b ! 0) = 1
     \<and> channels b ! 0 ! 0 = Finite (1 / 2) \<and> channels b ! 1 ! 0 = Finite (1 / 4)"
proof -
  have "even (length [0, 64, 0, 32, 0, 16 :: byte])" "(1::nat) \<le> 2"
    "2 \<le> length [0, 64, 0, 32, 0, 16 :: byte] div 2" "2 \<le> maxChannels ctxOut"
    "minSampleRate ctxOut \<le> 24000" "24000 \<le> maxSampleRate ctxOut"
    by (simp_all add: ctxOut_def)
  from decodeAudioData_frames [OF this] obtain b where
    b: "decodeAudioData [0, 64, 0, 32, 0, 16] ctxOut 24000 2 = Inr b"
    "length (channels b) = 2"
    and ch: "\<forall>ch < 2. length (channels b ! ch) = length [0, 64, 0, 32, 0, 16 :: byte] div 2 div 2
                 \<and> (\<forall>i < length [0, 64, 0, 32, 0, 16 :: byte] div 2 div 2.
                       channels b ! ch ! i
                         = Finite (real_of_int (sint (int16_view [0, 64, 0, 32, 0, 16] ! (i * 2 + ch)))
                                   / 32768))"
    by blast
  from ch have "length (channels b ! 0) = 1" "channels b ! 0 ! 0 = Finite (1 / 2)"
    "channels b ! 1 ! 0 = Finite (1 / 4)"
    by simp_all
  with b show ?thesis
    by blast
qed


text \<open>
  The claim C6 as stated fails on three bytes with one channel, where the
  \<^verbatim>\<open>Int16Array\<close> constructor raises RangeError, and on two bytes with two channels,
  where \<^verbatim>\<open>createBuffer\<close> is asked for a buffer of no frames and raises
  NotSupportedError.
\<close>

theorem decodeAudioData_frames_counterexample:
  "decodeAudioData [0, 64, 0] ctxOut 24000 1 = Inl RangeError
   \<and> decodeAudioData [0, 64] ctxOut 24000 2 = Inl NotSupportedError"
  by code_simp

lemma createBlob_value:
  "createBlob samples
     = Inr \<lparr>data = map of_nat (base64_encode (map unat (new_Uint8Array
                (map (\<lambda>s. ToInt16 (times_32768 s)) samples)))),
            mimeType = ''audio/pcm;rate=16000''\<rparr>"
  by (simp add: createBlob_def encode_value)

lemma truncate_error: "\<bar>real_of_int (truncate_real y) - y\<bar> < 1"
  unfolding truncate_real_def by (simp; linarith)

lemma truncate_range:
  assumes "- 32769 < y" "y < 32768"
  shows "- 32768 \<le> truncate_real y" "truncate_real y < 32768"
  using assms unfolding truncate_real_def by (simp_all; linarith)+

lemma sint_int16:
  assumes "- 32768 \<le> k" "k < 32768"
  shows "sint (word_of_int k :: int16) = k"
  using assms by (simp add: sint_sbintrunc' signed_take_bit_int_eq_self)


lemma nth_new_Uint8Array:
  "i < length ws \<Longrightarrow>
     new_Uint8Array ws ! (2 * i) = ucast (ws ! i)
     \<and> new_Uint8Array ws ! Suc (2 * i) = ucast (drop_bit 8 (ws ! i))"
proof (induction ws arbitrary: i)
  case (Cons w ws)
  then show ?case
    by (cases i) simp_all
qed simp

lemma ToInt16_finite:
  "sint (ToInt16 (times_32768 (Finite x))) = signed_take_bit 15 (truncate_real (x * 32768))"
  "- 32769 < x * 32768 \<Longrightarrow> x * 32768 < 32768 \<Longrightarrow>
     sint (ToInt16 (times_32768 (Finite x))) = truncate_real (x * 32768)"
  using truncate_range [of "x * 32768"]
  by (simp_all add: sint_sbintrunc' signed_take_bit_int_eq_self)

lemma ToInt16_not_finite: "s \<notin> range Finite \<Longrightarrow> ToInt16 (times_32768 s) = 0"
  by (cases s) simp_all

lemma sample_wire:
  "(s \<notin> range Finite \<longrightarrow> ToInt16 (times_32768 s) = 0)
   \<and> (\<forall>x. s = Finite x \<longrightarrow>
         sint (ToInt16 (times_32768 s)) = signed_take_bit 15 (truncate_real (x * 32768))
         \<and> \<bar>real_of_int (truncate_real (x * 32768)) - x * 32768\<bar> < 1
         \<and> (- 32769 < x * 32768 \<and> x * 32768 < 32768 \<longrightarrow>
              sint (ToInt16 (times_32768 s)) = truncate_real (x * 32768)))"
proof (intro conjI allI impI)
  assume "s \<notin> range Finite"
  then show "ToInt16 (times_32768 s) = 0"
    by (rule ToInt16_not_finite)
next
  fix x assume "s = Finite x"
  then show "sint (ToInt16 (times_32768 s)) = signed_take_bit 15 (truncate_real (x * 32768))"
    by (simp only: ToInt16_finite(1))
next
  fix x
  show "\<bar>real_of_int (truncate_real (x * 32768)) - x * 32768\<bar> < 1"
    by (rule truncate_error)
next
  fix x assume "s = Finite x" and "- 32769 < x * 32768 \<and> x * 32768 < 32768"
  then show "sint (ToInt16 (times_32768 s)) = truncate_real (x * 32768)"
    by (simp only: ToInt16_finite(2))
qed

text \<open>
  Claim C4, as the source has it. \<^verbatim>\<open>createBlob\<close> never raises. The bytes of its text
  hold, for every sample, the 16-bit integer stored by \<^verbatim>\<open>int16[i] = data[i] * 32768\<close>,
  low byte first. For a finite sample that integer is the product truncated towards
  zero (it differs from the product by less than 1; it is not the nearest integer),
  reduced modulo \<open>2 ^ 16\<close> into the signed range, and it is the truncated product
  itself when the product lies between -32769 and 32768. NaN and the infinities give 0.
\<close>

theorem createBlob_wire:
  "\<exists>text bytes.
     createBlob samples = Inr \<lparr>data = text, mimeType = ''audio/pcm;rate=16000''\<rparr>
     \<and> decode text = Inr bytes \<and> length bytes = 2 * length samples
     \<and> (\<forall>i < length samples.
           bytes ! (2 * i) = ucast (ToInt16 (times_32768 (samples ! i)))
           \<and> bytes ! (2 * i + 1) = ucast (drop_bit 8 (ToInt16 (times_32768 (samples ! i))))
           \<and> (samples ! i \<notin> range Finite \<longrightarrow> ToInt16 (times_32768 (samples ! i)) = 0)
           \<and> (\<forall>x. samples ! i = Finite x \<longrightarrow>
                 sint (ToInt16 (times_32768 (samples ! i)))
                   = signed_take_bit 15 (truncate_real (x * 32768))
                 \<and> \<bar>real_of_int (truncate_real (x * 32768)) - x * 32768\<bar> < 1
                 \<and> (- 32769 < x * 32768 \<and> x * 32768 < 32768 \<longrightarrow>
                      sint (ToInt16 (times_32768 (samples ! i)))
                        = truncate_real (x * 32768))))"
proof (intro exI conjI allI impI)
  let ?W = "map (\<lambda>s. ToInt16 (times_32768 s)) samples"
  show "createBlob samples
      = Inr \<lparr>data = map of_nat (base64_encode (map unat (new_Uint8Array ?W))),
             mimeType = ''audio/pcm;rate=16000''\<rparr>"
    by (rule createBlob_value)
  show "decode (map of_nat (base64_encode (map unat (new_Uint8Array ?W))))
      = Inr (new_Uint8Array ?W)"
    by (rule decode_encoded)
  show "length (new_Uint8Array ?W) = 2 * length samples"
    by (simp add: length_new_Uint8Array)
  fix i assume i: "i < length samples"
  then show "new_Uint8Array ?W ! (2 * i) = ucast (ToInt16 (times_32768 (samples ! i)))"
    and "new_Uint8Array ?W ! (2 * i + 1)
          = ucast (drop_bit 8 (ToInt16 (times_32768 (samples ! i))))"
    using nth_new_Uint8Array [of i ?W] by simp_all
  from sample_wire [of "samples ! i"]
  show "samples ! i \<notin> range Finite \<Longrightarrow> ToInt16 (times_32768 (samples ! i)) = 0"
    by blast
  fix x assume x: "samples ! i = Finite x"
  from sample_wire [of "samples ! i"] x
  show "sint (ToInt16 (times_32768 (samples ! i)))
      = signed_take_bit 15 (truncate_real (x * 32768))"
    by blast
  show "\<bar>real_of_int (truncate_real (x * 32768)) - x * 32768\<bar> < 1"
    by (rule truncate_error)
  assume "- 32769 < x * 32768 \<and> x * 32768 < 32768"
  with sample_wire [of "samples ! i"] x
  show "sint (ToInt16 (times_32768 (samples ! i))) = truncate_real (x * 32768)"
    by blast
qed

lemma blob_example:
  "createBlob [Finite (1 / 4)]
     = Inr \<lparr>data = [65, 67, 65, 61], mimeType = ''audio/pcm;rate=16000''\<rparr>"
  by code_simp

theorem createBlob_wire_witness:
  "decode [65, 67, 65, 61] = Inr [0, 32]"
proof -
  from createBlob_wire [of "[Finite (1 / 4)]"] obtain t bytes where
    "createBlob [Finite (1 / 4)] = Inr \<lparr>data = t, mimeType = ''audio/pcm;rate=16000''\<rparr>"
    and dec: "decode t = Inr bytes" and len: "length bytes = 2 * length [Finite (1 / 4)]"
    and val: "\<forall>i < length [Finite (1 / 4)].
           bytes ! (2 * i) = ucast (ToInt16 (times_32768 ([Finite (1 / 4)] ! i)))
           \<and> bytes ! (2 * i + 1)
               = ucast (drop_bit 8 (ToInt16 (times_32768 ([Finite (1 / 4)] ! i))))"
    by blast
  then have t: "t = [65, 67, 65, 61]"
    by (simp add: blob_example)
  from val have "bytes ! 0 = 0" "bytes ! 1 = 32"
    by (simp_all add: truncate_real_def)
  with len have "bytes = [0, 32]"
    by (simp add: list_eq_iff_nth_eq nth_Cons' less_Suc_eq numeral_eq_Suc)
  with dec t show ?thesis
    by simp
qed

text \<open>
  The claim C4 as stated fails at the sample \<open>3 / 131072\<close>, a 32-bit float: the product
  is 0.75, the nearest integer is 1, and the wire holds 0.
\<close>

theorem createBlob_round_counterexample:
  "createBlob [Finite (3 / 131072)]
     = Inr \<lparr>data = [65, 65, 65, 61], mimeType = ''audio/pcm;rate=16000''\<rparr>
   \<and> decode [65, 65, 65, 61] = Inr [0, 0] \<and> new_Int16Array [0, 0] = Inr [0]
   \<and> round (3 / 131072 * 32768 :: real) = 1"
  by code_simp


lemma roundTrip_value:
  "roundTrip ctx rate samples
     = decodeAudioData (new_Uint8Array (map (\<lambda>s. ToInt16 (times_32768 s)) samples)) ctx rate 1"
  by (simp add: roundTrip_def createBlob_value decode_encoded)

lemma quantisation:
  assumes "- 1 \<le> x" "x < 1"
  shows "\<bar>real_of_int (sint (ToInt16 (times_32768 (Finite x)))) / 32768 - x\<bar> < 1 / 32768"
proof -
  let ?k = "truncate_real (x * 32768)"
  from assms have "sint (ToInt16 (times_32768 (Finite x))) = ?k"
    by (intro ToInt16_finite(2)) simp_all
  moreover have "\<bar>real_of_int ?k / 32768 - x\<bar> = \<bar>real_of_int ?k - x * 32768\<bar> / 32768"
    by (simp add: field_simps abs_if)
  ultimately show ?thesis
    using truncate_error [of "x * 32768"] by simp
qed

text \<open>
  Claim C3, as the source has it. For a non-empty sequence of finite samples, each at
  least -1 and less than 1, and a context that supports one channel at the sample rate,
  the round trip returns one channel of the same length, and every element differs from
  the sample it comes from by less than 1/32768.
\<close>

theorem roundTrip_error:
  assumes "samples \<noteq> []"
    and "\<forall>s \<in> set samples. \<exists>x. s = Finite x \<and> - 1 \<le> x \<and> x < 1"
    and "1 \<le> maxChannels ctx" and "minSampleRate ctx \<le> rate" and "rate \<le> maxSampleRate ctx"
  shows "\<exists>b ys. roundTrip ctx rate samples = Inr b \<and> channels b = [ys]
           \<and> length ys = length samples
           \<and> (\<forall>i < length samples. \<exists>x y. samples ! i = Finite x \<and> ys ! i = Finite y
                 \<and> \<bar>y - x\<bar> < 1 / 32768)"
proof -
  let ?W = "map (\<lambda>s. ToInt16 (times_32768 s)) samples"
  let ?bytes = "new_Uint8Array ?W"
  have len: "length ?bytes div 2 = length samples"
    by (simp add: length_new_Uint8Array)
  have "even (length ?bytes)" "(1::nat) \<le> 1" "1 \<le> length ?bytes div 2"
    using assms(1) by (simp_all add: length_new_Uint8Array Suc_le_eq)
  from decodeAudioData_value [OF this assms(3-5)] obtain b where
    b: "decodeAudioData ?bytes ctx rate 1 = Inr b" "length (channels b) = 1"
    and ch: "length (channels b ! 0) = length samples"
      "\<And>i. i < length samples \<Longrightarrow>
         channels b ! 0 ! i = Finite (real_of_int (sint (?W ! i)) / 32768)"
    by (auto simp: len int16_view_bytes simp del: ToInt16.simps times_32768.simps)
  from b(2) have one: "channels b = [channels b ! 0]"
    by (cases "channels b") simp_all
  have "\<exists>x y. samples ! i = Finite x \<and> channels b ! 0 ! i = Finite y \<and> \<bar>y - x\<bar> < 1 / 32768"
    if i: "i < length samples" for i
  proof -
    from assms(2) i obtain x where x: "samples ! i = Finite x" "- 1 \<le> x" "x < 1"
      using nth_mem by blast
    from ch(2) [OF i] i x(1)
    have "channels b ! 0 ! i
        = Finite (real_of_int (sint (ToInt16 (times_32768 (Finite x)))) / 32768)"
      by (simp del: ToInt16.simps times_32768.simps)
    with x quantisation [OF x(2,3)] show ?thesis
      by blast
  qed
  with b(1) one ch(1) show ?thesis
    unfolding roundTrip_value by blast
qed

lemma roundTrip_example:
  "roundTrip ctxOut 16000 [Finite (1 / 3)]
     = Inr \<lparr>sampleRate = 16000, channels = [[Finite (5461 / 16384)]]\<rparr>"
  by code_simp

theorem roundTrip_error_witness:
  "roundTrip ctxOut 16000 [Finite (1 / 3)]
     = Inr \<lparr>sampleRate = 16000, channels = [[Finite (5461 / 16384)]]\<rparr>
   \<and> \<bar>5461 / 16384 - 1 / 3\<bar> < (1 / 32768 :: real)"
proof -
  have third: "\<exists>x. Finite (1 / 3) = Finite x \<and> - 1 \<le> x \<and> x < 1"
    by (rule exI [of _ "1 / 3"]) simp
  have "[Finite (1 / 3)] \<noteq> []"
    and "\<forall>s \<in> set [Finite (1 / 3)]. \<exists>x. s = Finite x \<and> - 1 \<le> x \<and> x < 1"
    and "1 \<le> maxChannels ctxOut" and "minSampleRate ctxOut \<le> 16000"
    and "16000 \<le> maxSampleRate ctxOut"
    using third by (simp_all add: ctxOut_def del: number.inject)
  from roundTrip_error [OF this] obtain b ys where
    rt: "roundTrip ctxOut 16000 [Finite (1 / 3)] = Inr b"
    and chs: "channels b = [ys]"
    and err: "\<forall>i < length [Finite (1 / 3)].
        \<exists>x y. [Finite (1 / 3)] ! i = Finite x \<and> ys ! i = Finite y \<and> \<bar>y - x\<bar> < 1 / 32768"
    by blast
  from rt have "b = \<lparr>sampleRate = 16000, channels = [[Finite (5461 / 16384)]]\<rparr>"
    by (simp add: roundTrip_example)
  with chs have ys: "ys = [Finite (5461 / 16384)]"
    by simp
  from err obtain x y where "[Finite (1 / 3)] ! 0 = Finite x" "ys ! 0 = Finite y"
    and close: "\<bar>y - x\<bar> < 1 / 32768"
    by auto
  then have "1 / 3 = x" "5461 / 16384 = y"
    unfolding ys by (simp_all only: nth_Cons_0 number.inject)
  with close have "\<bar>5461 / 16384 - 1 / 3\<bar> < (1 / 32768 :: real)"
    by (simp only:)
  with roundTrip_example show ?thesis
    by (rule conjI)
qed

text \<open>
  The claim C3 as stated fails at the sample 1.0: the product 32768 is stored as -32768
  and comes back as -1.0. It fails on the empty sequence too, where
  \<^verbatim>\<open>createBuffer\<close> is asked for a buffer of no frames.
\<close>

theorem roundTrip_error_counterexample:
  "roundTrip ctxOut 16000 [Finite 1] = Inr \<lparr>sampleRate = 16000, channels = [[Finite (- 1)]]\<rparr>
   \<and> \<not> \<bar>(- 1) - (1 :: real)\<bar> \<le> 1 / 32768
   \<and> roundTrip ctxOut 16000 [] = Inl NotSupportedError"
  by code_simp

section \<open>Playback scheduling\<close>















section \<open>Teardown\<close>

lemma cleanup_refs:
  "sessionRef (cleanup h s) = None"
  "streamRef (cleanup h s) = None"
  "scriptProcessorRef (cleanup h s) = None"
  "inputAudioContextRef (cleanup h s) = None"
  "outputAudioContextRef (cleanup h s) = None"
  by (simp_all add: cleanup_def Let_def call_def split: option.splits)

lemma cleanup_released:
  assumes "sessionRef s = None" "streamRef s = None" "scriptProcessorRef s = None"
    "inputAudioContextRef s = None" "outputAudioContextRef s = None"
  shows "cleanup h s = (if h then call SpeechCancel s else s)"
  using assms by (simp add: cleanup_def Let_def call_def)

text \<open>
  Claim C7. After one teardown (\<^verbatim>\<open>stopSession\<close> or \<^verbatim>\<open>cleanup\<close>) from any state the
  five refs are null, and a second teardown right after it does nothing but cancel
  speech synthesis again, where the window has it: it releases nothing. The model of
  teardown has no error branch, as the source has no throw in it.
\<close>

theorem teardown_twice:
  "sessionRef (stopSession h s) = None \<and> streamRef (stopSession h s) = None
   \<and> scriptProcessorRef (stopSession h s) = None
   \<and> inputAudioContextRef (stopSession h s) = None
   \<and> outputAudioContextRef (stopSession h s) = None
   \<and> stopSession h (stopSession h s)
       = (if h then call SpeechCancel (stopSession h s) else stopSession h s)
   \<and> cleanup h (cleanup h s) = (if h then call SpeechCancel (cleanup h s) else cleanup h s)
   \<and> filter release (effects (stopSession h (stopSession h s)))
       = filter release (effects (stopSession h s))
   \<and> filter release (effects (cleanup h (cleanup h s)))
       = filter release (effects (cleanup h s))"
proof -
  let ?t = "stopSession h s"
  have refs: "sessionRef ?t = None" "streamRef ?t = None" "scriptProcessorRef ?t = None"
    "inputAudioContextRef ?t = None" "outputAudioContextRef ?t = None"
    by (simp_all add: stopSession_def cleanup_refs)
  have again: "cleanup h ?t = (if h then call SpeechCancel ?t else ?t)"
    by (rule cleanup_released) (rule refs)+
  have stop2: "stopSession h ?t = (if h then call SpeechCancel ?t else ?t)"
    unfolding stopSession_def [of h "stopSession h s"] again
    by (simp add: stopSession_def call_def)
  have clean2:
    "cleanup h (cleanup h s) = (if h then call SpeechCancel (cleanup h s) else cleanup h s)"
    by (rule cleanup_released) (rule cleanup_refs)+
  have r1: "filter release (effects (stopSession h ?t)) = filter release (effects ?t)"
    unfolding stop2 by (simp add: call_def release_def)
  have r2: "filter release (effects (cleanup h (cleanup h s)))
      = filter release (effects (cleanup h s))"
    unfolding clean2 by (simp add: call_def release_def)
  from refs stop2 clean2 r1 r2 show ?thesis by blast
qed

lemma stop_connected:
  "filter release (effects (stopSession True connected))
     = [SessionClose 4, TracksStop 1, ProcessorDisconnect 6, ContextClose 2, ContextClose 3]"
  by code_simp

theorem teardown_twice_witness:
  "sessionRef (stopSession True connected) = None
   \<and> filter release (effects (stopSession True (stopSession True connected)))
       = [SessionClose 4, TracksStop 1, ProcessorDisconnect 6, ContextClose 2, ContextClose 3]"
proof -
  note twice = teardown_twice [of True connected]
  from twice have "sessionRef (stopSession True connected) = None"
    by blast
  moreover from twice have
    "filter release (effects (stopSession True (stopSession True connected)))
       = filter release (effects (stopSession True connected))"
    by blast
  ultimately show ?thesis
    by (simp only: stop_connected simp_thms)
qed

section \<open>The error callback\<close>

text \<open>
  Claim C8 says that a connection failure moves the state to error and releases the
  session, the microphone stream, the capture graph and both audio contexts through
  teardown. The source moves the state and releases nothing: on a connected session,
  \<^verbatim>\<open>onerror\<close> leaves all five refs set and makes no call. In the error state the
  component offers Start only, and a restart overwrites \<^verbatim>\<open>streamRef\<close> and both
  context refs; a stop after the restart releases the new stream and the new contexts,
  and the stream 1 and the contexts 2 and 3 of the failed attempt are never released.
\<close>

theorem onerror_leak:
  "micState (onerror connected) = MicError
   \<and> sessionRef (onerror connected) = Some 4 \<and> streamRef (onerror connected) = Some 1
   \<and> scriptProcessorRef (onerror connected) = Some 6
   \<and> inputAudioContextRef (onerror connected) = Some ctxIn
   \<and> outputAudioContextRef (onerror connected) = Some ctxOut
   \<and> filter release (effects (onerror connected)) = []
   \<and> filter release (effects restarted) = []
   \<and> filter release (effects (stopSession True restarted))
       = [SessionClose 4, TracksStop 7, ProcessorDisconnect 6, ContextClose 8, ContextClose 9]"
  by code_simp

section \<open>Stop while the connect is pending\<close>

text \<open>
  Claim C9 says that after a stop during the pending connect the resolution of the
  connect has no further effect: the session is not retained, the capture wiring is
  skipped and nothing is sent on the resolved session. In the source the teardown finds
  \<^verbatim>\<open>sessionRef\<close> null and closes no session; the resolution then stores the session
  in \<^verbatim>\<open>sessionRef\<close>, and the session is not closed. \<^verbatim>\<open>onopen\<close> after the stop
  stores a script processor and connects the capture graph, and a capture callback
  sends on the session. A capture callback that came before the stop, with the promise
  pending, has its send queued, and the resolution makes that send after the teardown.
\<close>

theorem stop_while_connecting_leak:
  "sessionRef connecting = None
   \<and> filter release (effects (stopSession True connecting))
       = [TracksStop 1, ContextClose 2, ContextClose 3]
   \<and> fst (fulfil 4 (Pending []) (stopSession True connecting)) = Fulfilled 4
   \<and> sessionRef (snd (fulfil 4 (Pending []) (stopSession True connecting))) = Some 4
   \<and> effects (snd (fulfil 4 (Pending []) (stopSession True connecting)))
       = effects (stopSession True connecting)
   \<and> scriptProcessorRef
         (onopen 5 6 (snd (fulfil 4 (Pending []) (stopSession True connecting)))) = Some 6
   \<and> effects (snd (onaudioprocess (Fulfilled 4) [Finite 1]
                (onopen 5 6 (snd (fulfil 4 (Pending []) (stopSession True connecting))))))
       = [LiveConnect ''key'' ''Bai 1'', TracksStop 1, ContextClose 2, ContextClose 3,
          SpeechCancel, CaptureConnect 5 6, SendRealtimeInput 4 pcmOne]
   \<and> onaudioprocess (Pending []) [Finite 1] (onopen 5 6 connecting)
       = (Pending [pcmOne], onopen 5 6 connecting)
   \<and> effects (snd (fulfil 4 (Pending [pcmOne]) (stopSession True (onopen 5 6 connecting))))
       = [LiveConnect ''key'' ''Bai 1'', CaptureConnect 5 6, TracksStop 1,
          ProcessorDisconnect 6, ContextClose 2, ContextClose 3, SpeechCancel,
          SendRealtimeInput 4 pcmOne]"
  by code_simp

section \<open>The credential check of startSession\<close>

text \<open>
  Claim C10. \<^verbatim>\<open>startSession\<close> ends with the missing-credential error exactly when the
  \<^verbatim>\<open>apiKey\<close> prop is empty and \<^verbatim>\<open>process.env.API_KEY\<close> is undefined or empty; then
  only \<^verbatim>\<open>micState\<close> and \<^verbatim>\<open>error\<close> have changed, so nothing was acquired. With an
  empty prop and a non-empty environment value the check passes and the start goes on
  with the environment value as the key.
\<close>

theorem startSession_credential:
  "((snd (startSession apiKey envKey table lessonName s) = Returned
      \<and> error (fst (startSession apiKey envKey table lessonName s)) = Some NoApiKey)
     = (apiKey = [] \<and> (envKey = None \<or> envKey = Some [])))
   \<and> (apiKey = [] \<and> (envKey = None \<or> envKey = Some []) \<longrightarrow>
        startSession apiKey envKey table lessonName s
          = (s\<lparr>micState := MicError, error := Some NoApiKey\<rparr>, Returned))
   \<and> (apiKey = [] \<and> envKey = Some key \<and> key \<noteq> [] \<and> table lessonName = Some prompts \<longrightarrow>
        startSession apiKey envKey table lessonName s
          = (call GetUserMedia (s\<lparr>micState := MicRequesting, error := None\<rparr>),
             AwaitingMicrophone key prompts))"
  by (auto simp: startSession_def effectiveApiKey_def falsy_def Let_def call_def
      split: option.splits)

theorem startSession_credential_witness:
  "startSession [] None [''Bai 1'' \<mapsto> [''q'']] ''Bai 1'' initial
     = (initial\<lparr>micState := MicError, error := Some NoApiKey\<rparr>, Returned)
   \<and> startSession [] (Some ''env'') [''Bai 1'' \<mapsto> [''q'']] ''Bai 1'' initial
     = (call GetUserMedia (initial\<lparr>micState := MicRequesting, error := None\<rparr>),
        AwaitingMicrophone ''env'' [''q''])"
  using startSession_credential [of "[]" None "[''Bai 1'' \<mapsto> [''q'']]" "''Bai 1''" initial]
    startSession_credential [of "[]" "Some ''env''" "[''Bai 1'' \<mapsto> [''q'']]" "''Bai 1''"
      initial "''env''" "[''q'']"]
  by simp

end
